theory Spec2Isabelle
  imports Main "HOL-Library.AList" "HOL-Library.Sublist" "HOL-Library.Multiset"
begin

section \<open>Shared types (types.ts)\<close>

datatype ContentType = Skills | Agents | Commands | Rules | Prompts

text \<open>The string a content type is at run time (the TypeScript type is a union of
  string literals).\<close>

fun ct_str :: "ContentType \<Rightarrow> string" where
  "ct_str Skills = ''skills''"
| "ct_str Agents = ''agents''"
| "ct_str Commands = ''commands''"
| "ct_str Rules = ''rules''"
| "ct_str Prompts = ''prompts''"

datatype InstallScope = Project | Global

datatype InstallMethod = Symlink | Copy

text \<open>An assistant descriptor. The probe \<open>detectInstalled\<close> is a closure over the
  environment and plays no part in path resolution; it is left out.\<close>

record AssistantConfig =
  name_A :: string
  id_A :: string
  description_A :: string
  paths :: "ContentType \<rightharpoonup> string"
  globalPaths :: "ContentType \<rightharpoonup> string"
  isUniversal :: "bool option"
  contextFile :: "string option"

section \<open>POSIX path.join of the Node runtime\<close>

text \<open>\<open>String.prototype.split\<close> on a one-character separator.\<close>

fun split_on :: "char \<Rightarrow> string \<Rightarrow> string list" where
  "split_on c [] = [[]]"
| "split_on c (x # xs) =
     (if x = c then [] # split_on c xs
      else (case split_on c xs of
              [] \<Rightarrow> [[x]]
            | s # ss \<Rightarrow> (x # s) # ss))"

fun join_with :: "string \<Rightarrow> string list \<Rightarrow> string" where
  "join_with sep [] = []"
| "join_with sep [s] = s"
| "join_with sep (s # t # ss) = s @ sep @ join_with sep (t # ss)"

text \<open>Node's \<open>normalizeString\<close>: empty and \<open>.\<close> segments are dropped, \<open>..\<close> removes the
  segment before it, or is kept when there is none and the path is relative
  (\<open>allowAboveRoot\<close>). The accumulator holds the kept segments, last one first.\<close>

fun normalizeString :: "bool \<Rightarrow> string list \<Rightarrow> string list \<Rightarrow> string list" where
  "normalizeString allowAboveRoot acc [] = rev acc"
| "normalizeString allowAboveRoot acc (s # ss) =
     (if s = [] \<or> s = ''.'' then normalizeString allowAboveRoot acc ss
      else if s = ''..'' then
        (case acc of
           [] \<Rightarrow> normalizeString allowAboveRoot (if allowAboveRoot then [''..''] else []) ss
         | t # ts \<Rightarrow>
             if t \<noteq> ''..'' then normalizeString allowAboveRoot ts ss
             else normalizeString allowAboveRoot (if allowAboveRoot then ''..'' # acc else acc) ss)
      else normalizeString allowAboveRoot (s # acc) ss)"

definition path_normalize :: "string \<Rightarrow> string" where
  "path_normalize p =
     (if p = [] then ''.''
      else
        let isAbsolute = (hd p = CHR ''/'');
            trailingSeparator = (last p = CHR ''/'');
            body = join_with ''/'' (normalizeString (\<not> isAbsolute) [] (split_on CHR ''/'' p))
        in if body = [] then
             (if isAbsolute then ''/'' else if trailingSeparator then ''./'' else ''.'')
           else (if isAbsolute then ''/'' else []) @ body
                  @ (if trailingSeparator then ''/'' else []))"

text \<open>\<open>path.join(...args)\<close>: the non-empty arguments joined by \<open>/\<close>, then
  normalised; \<open>.\<close> when there is none.\<close>

definition path_join :: "string list \<Rightarrow> string" where
  "path_join args =
     (let parts = filter (\<lambda>a. a \<noteq> []) args
      in if parts = [] then ''.'' else path_normalize (join_with ''/'' parts))"

text \<open>\<open>path.dirname\<close>: scanning from the end down to index 1, trailing slashes are
  skipped, then the name, and the path is cut at the slash before the name.\<close>

definition path_dirname :: "string \<Rightarrow> string" where
  "path_dirname p =
     (if p = [] then ''.''
      else
        let hasRoot = (hd p = CHR ''/'');
            noTrail = dropWhile (\<lambda>c. c = CHR ''/'') (rev (tl p));
            cut = dropWhile (\<lambda>c. c \<noteq> CHR ''/'') noTrail
        in if cut = [] then (if hasRoot then ''/'' else ''.'')
           else if hasRoot \<and> tl cut = [] then ''//''
           else hd p # rev (tl cut))"

section \<open>Assistant registry (agents.ts)\<close>

definition CANONICAL_DIR :: string where
  "CANONICAL_DIR = ''.ai''"

text \<open>\<open>getContentPath\<close>. A JavaScript string is falsy exactly when it is empty, so
  \<open>!relativePath\<close> also catches an empty table entry and \<open>projectRoot ? \<dots>\<close> treats an
  empty root like an omitted one (\<open>None\<close>). \<open>None\<close> as a result is \<open>undefined\<close>.\<close>

definition getContentPath ::
  "AssistantConfig \<Rightarrow> ContentType \<Rightarrow> InstallScope \<Rightarrow> string option \<Rightarrow> string option" where
  "getContentPath assistant contentType scope projectRoot =
     (if scope = Global then globalPaths assistant contentType
      else
        (case paths assistant contentType of
           None \<Rightarrow> None
         | Some relativePath \<Rightarrow>
             if relativePath = [] then None
             else
               (case projectRoot of
                  None \<Rightarrow> Some relativePath
                | Some root \<Rightarrow>
                    if root = [] then Some relativePath
                    else Some (path_join [root, relativePath]))))"

text \<open>\<open>getCanonicalPath\<close>. The module constant \<open>home\<close> (\<open>os.homedir()\<close>) is the first
  argument.\<close>

definition getCanonicalPath ::
  "string \<Rightarrow> ContentType \<Rightarrow> string \<Rightarrow> InstallScope \<Rightarrow> string option \<Rightarrow> string" where
  "getCanonicalPath home contentType nm scope projectRoot =
     (let basePath = (if scope = Global then path_join [home, CANONICAL_DIR] else CANONICAL_DIR);
          fullBase =
            (case projectRoot of
               None \<Rightarrow> basePath
             | Some root \<Rightarrow> if root = [] then basePath else path_join [root, basePath])
      in path_join [fullBase, ct_str contentType, nm])"

text \<open>The first entry of the registry, Claude Code; \<open>claudeHome\<close> is the module
  constant of that name.\<close>

definition claude :: "string \<Rightarrow> AssistantConfig" where
  "claude claudeHome =
     \<lparr>name_A = ''Claude Code'', id_A = ''claude'',
      description_A = ''Anthropic's Claude AI assistant for coding'',
      paths = [Skills \<mapsto> ''.claude/skills'', Agents \<mapsto> ''.claude/agents'',
               Commands \<mapsto> ''.claude/commands''],
      globalPaths = [Skills \<mapsto> path_join [claudeHome, ''skills''],
                     Agents \<mapsto> path_join [claudeHome, ''agents''],
                     Commands \<mapsto> path_join [claudeHome, ''commands'']],
      isUniversal = None, contextFile = Some ''CLAUDE.md''\<rparr>"

section \<open>The file system the Node calls act on\<close>

text \<open>The mutable disk is a map from absolute paths, as lists of segments, to regular
  files (with their text) and directories, every entry lying in a directory that has
  an entry itself; the root \<open>[]\<close> is always a directory. \<open>denied\<close> holds the paths the process may not change: a file there cannot
  be rewritten, and no entry can be created in or removed from a directory there.
  \<open>workdir\<close> is \<open>process.cwd()\<close>, against which relative paths resolve.\<close>

datatype node = File string | Dir

datatype errno = ENOENT | ENOTDIR | EISDIR | EEXIST | EACCES | TypeError

record filesystem =
  entries :: "string list \<rightharpoonup> node"
  denied :: "string list set"
  workdir :: string

text \<open>The segments of a path resolved against the working directory \<open>wd\<close>.\<close>

definition segments :: "string \<Rightarrow> string \<Rightarrow> string list" where
  "segments wd p =
     normalizeString False []
       (split_on CHR ''/'' (if p \<noteq> [] \<and> hd p = CHR ''/'' then p else wd @ ''/'' @ p))"

text \<open>Path lookup. A path without an entry fails with \<open>ENOTDIR\<close> when a regular file
  lies on the way to it and with \<open>ENOENT\<close> otherwise.\<close>

definition is_file :: "node option \<Rightarrow> bool" where
  "is_file n = (case n of Some (File c) \<Rightarrow> True | _ \<Rightarrow> False)"

definition lookup :: "filesystem \<Rightarrow> string list \<Rightarrow> errno + node" where
  "lookup fsys q =
     (if q = [] then Inr Dir
      else
        (case entries fsys q of
           Some n \<Rightarrow> Inr n
         | None \<Rightarrow>
             if list_ex (\<lambda>r. is_file (entries fsys r)) (prefixes q) then Inl ENOTDIR
             else Inl ENOENT))"

definition stat :: "filesystem \<Rightarrow> string \<Rightarrow> errno + node" where
  "stat fsys p = lookup fsys (segments (workdir fsys) p)"

text \<open>\<open>fs.promises.access(p)\<close>: \<open>None\<close> when the path exists, the error thrown
  otherwise.\<close>

definition access :: "filesystem \<Rightarrow> string \<Rightarrow> errno option" where
  "access fsys p = (case stat fsys p of Inl e \<Rightarrow> Some e | Inr n \<Rightarrow> None)"

definition readFile :: "filesystem \<Rightarrow> string \<Rightarrow> errno + string" where
  "readFile fsys p =
     (case stat fsys p of
        Inl e \<Rightarrow> Inl e
      | Inr Dir \<Rightarrow> Inl EISDIR
      | Inr (File c) \<Rightarrow> Inr c)"

text \<open>The operations that change the disk return the error thrown, if any, and the
  disk as it is then.\<close>

fun mkdirs :: "filesystem \<Rightarrow> string list \<Rightarrow> string list \<Rightarrow> errno option \<times> filesystem" where
  "mkdirs fsys pre [] = (None, fsys)"
| "mkdirs fsys pre (s # ss) =
     (case entries fsys (pre @ [s]) of
        Some Dir \<Rightarrow> mkdirs fsys (pre @ [s]) ss
      | Some (File c) \<Rightarrow> (Some (if ss = [] then EEXIST else ENOTDIR), fsys)
      | None \<Rightarrow>
          if pre \<in> denied fsys then (Some EACCES, fsys)
          else mkdirs (fsys\<lparr>entries := (entries fsys)(pre @ [s] \<mapsto> Dir)\<rparr>) (pre @ [s]) ss)"

text \<open>\<open>fs.promises.mkdir(p, { recursive: true })\<close>.\<close>

definition mkdir_recursive :: "filesystem \<Rightarrow> string \<Rightarrow> errno option \<times> filesystem" where
  "mkdir_recursive fsys p = mkdirs fsys [] (segments (workdir fsys) p)"

text \<open>\<open>fs.promises.writeFile(p, content)\<close>: creates or replaces a regular file in an
  existing directory.\<close>

definition writeFile :: "filesystem \<Rightarrow> string \<Rightarrow> string \<Rightarrow> errno option \<times> filesystem" where
  "writeFile fsys p content =
     (let q = segments (workdir fsys) p
      in if q = [] then (Some EISDIR, fsys)
         else
           (case lookup fsys (butlast q) of
              Inl e \<Rightarrow> (Some e, fsys)
            | Inr (File c) \<Rightarrow> (Some ENOTDIR, fsys)
            | Inr Dir \<Rightarrow>
                (case entries fsys q of
                   Some Dir \<Rightarrow> (Some EISDIR, fsys)
                 | Some (File c) \<Rightarrow>
                     if q \<in> denied fsys then (Some EACCES, fsys)
                     else (None, fsys\<lparr>entries := (entries fsys)(q \<mapsto> File content)\<rparr>)
                 | None \<Rightarrow>
                     if butlast q \<in> denied fsys then (Some EACCES, fsys)
                     else (None, fsys\<lparr>entries := (entries fsys)(q \<mapsto> File content)\<rparr>))))"



section \<open>Lock store (lock.ts)\<close>

record InstalledItem =
  type_I :: ContentType
  id_I :: string
  source :: string
  hash :: string
  installedAt :: string
  assistants :: "string list"
  scope_I :: InstallScope
  method_I :: InstallMethod

record Preferences =
  defaultAssistants :: "string list option"
  defaultScope :: "InstallScope option"
  defaultMethod :: "InstallMethod option"

text \<open>\<open>installed\<close> is a JavaScript object used as a dictionary: an association list
  in insertion order.\<close>

record LockFile =
  version :: string
  lastUpdateCheck :: "string option"
  installed :: "(string \<times> InstalledItem) list"
  preferences :: "Preferences option"

definition LOCK_FILE_VERSION :: string where
  "LOCK_FILE_VERSION = ''1.0.0''"

definition LOCK_FILE_NAME :: string where
  "LOCK_FILE_NAME = ''.skill-lock.json''"

text \<open>Lock files are kept apart from the other files: per lock-file path the store
  holds what reading that file and \<open>JSON.parse\<close> yield. The file is missing
  (\<open>readFile\<close> throws), or its text is not JSON (\<open>JSON.parse\<close> throws), or it is
  the JSON text of a scalar (\<open>null\<close>, \<open>true\<close>, \<open>42\<close>, \<open>"x"\<close>), or of a document of the
  shape of \<open>LockFile\<close>. JSON arrays and objects of other shapes are outside the model.
  \<open>unwritable\<close> holds the lock-file paths at which \<open>mkdir\<close> or \<open>writeFile\<close> throws.\<close>

datatype scalar = JNull | JBool bool | JNum int | JStr string

datatype lock_value = Doc LockFile | Prim scalar

datatype lock_disk = Missing | NotJSON | Parses lock_value

record lock_store =
  lock_files :: "string \<Rightarrow> lock_disk"
  unwritable :: "string set"

text \<open>\<open>getLockFilePath\<close>; \<open>home\<close> is \<open>os.homedir()\<close> and \<open>cwd\<close> is \<open>process.cwd()\<close>.
  \<open>projectRoot || process.cwd()\<close> takes the working directory also for an empty
  root.\<close>

definition getLockFilePath :: "string \<Rightarrow> string \<Rightarrow> InstallScope \<Rightarrow> string option \<Rightarrow> string" where
  "getLockFilePath home cwd scope projectRoot =
     (if scope = Global then path_join [home, ''.ai'', LOCK_FILE_NAME]
      else
        let root = (case projectRoot of
                      None \<Rightarrow> cwd
                    | Some r \<Rightarrow> if r = [] then cwd else r)
        in path_join [root, ''.ai'', LOCK_FILE_NAME])"

definition getItemKey :: "ContentType \<Rightarrow> string \<Rightarrow> string" where
  "getItemKey t i = ct_str t @ ''/'' @ i"

definition emptyLockFile :: LockFile where
  "emptyLockFile =
     \<lparr>version = LOCK_FILE_VERSION, lastUpdateCheck = None, installed = [], preferences = None\<rparr>"

text \<open>\<open>readLockFile\<close>: whatever is thrown inside the \<open>try\<close> gives the empty lock
  file; a parsed value is returned as it is (the cast \<open>as LockFile\<close> checks
  nothing).\<close>

definition readLockFile ::
  "string \<Rightarrow> string \<Rightarrow> lock_store \<Rightarrow> InstallScope \<Rightarrow> string option \<Rightarrow> lock_value" where
  "readLockFile home cwd store scope projectRoot =
     (case lock_files store (getLockFilePath home cwd scope projectRoot) of
        Missing \<Rightarrow> Doc emptyLockFile
      | NotJSON \<Rightarrow> Doc emptyLockFile
      | Parses v \<Rightarrow> v)"

text \<open>\<open>writeLockFile\<close> replaces the whole file; an error of \<open>mkdir\<close> or \<open>writeFile\<close>
  is not caught.\<close>

definition writeLockFile ::
  "string \<Rightarrow> string \<Rightarrow> LockFile \<Rightarrow> InstallScope \<Rightarrow> string option \<Rightarrow> lock_store
     \<Rightarrow> errno option \<times> lock_store" where
  "writeLockFile home cwd lockFile scope projectRoot store =
     (let lockPath = getLockFilePath home cwd scope projectRoot
      in if lockPath \<in> unwritable store then (Some EACCES, store)
         else (None, store\<lparr>lock_files := (lock_files store)(lockPath := Parses (Doc lockFile))\<rparr>))"

text \<open>\<open>Array.from(new Set(xs))\<close>: the first occurrence of each element, in order.\<close>

definition set_from :: "string list \<Rightarrow> string list" where
  "set_from xs = fold (\<lambda>x acc. if x \<in> set acc then acc else acc @ [x]) xs []"

text \<open>\<open>updateLockFile\<close>. Reading \<open>installed\<close> of a scalar gives \<open>undefined\<close> (or
  throws, for \<open>null\<close>) and indexing that throws a TypeError.\<close>

definition updateLockFile ::
  "string \<Rightarrow> string \<Rightarrow> InstalledItem \<Rightarrow> InstallScope \<Rightarrow> string option \<Rightarrow> lock_store
     \<Rightarrow> errno option \<times> lock_store" where
  "updateLockFile home cwd item scope projectRoot store =
     (case readLockFile home cwd store scope projectRoot of
        Prim v \<Rightarrow> (Some TypeError, store)
      | Doc lockFile \<Rightarrow>
          let key = getItemKey (type_I item) (id_I item);
              entry =
                (case map_of (installed lockFile) key of
                   Some existing \<Rightarrow>
                     item\<lparr>assistants := set_from (assistants existing @ assistants item)\<rparr>
                 | None \<Rightarrow> item)
          in writeLockFile home cwd
               (lockFile\<lparr>installed := AList.update key entry (installed lockFile)\<rparr>)
               scope projectRoot store)"

text \<open>\<open>removeFromLockFile\<close>: nothing is written when the key is absent.\<close>

definition removeFromLockFile ::
  "string \<Rightarrow> string \<Rightarrow> ContentType \<Rightarrow> string \<Rightarrow> string \<Rightarrow> InstallScope \<Rightarrow> string option
     \<Rightarrow> lock_store \<Rightarrow> errno option \<times> lock_store" where
  "removeFromLockFile home cwd t i assistantId scope projectRoot store =
     (case readLockFile home cwd store scope projectRoot of
        Prim v \<Rightarrow> (Some TypeError, store)
      | Doc lockFile \<Rightarrow>
          let key = getItemKey t i
          in (case map_of (installed lockFile) key of
                None \<Rightarrow> (None, store)
              | Some item \<Rightarrow>
                  let rest = filter (\<lambda>a. a \<noteq> assistantId) (assistants item);
                      installed' =
                        (if length rest = 0 then AList.delete key (installed lockFile)
                         else AList.update key (item\<lparr>assistants := rest\<rparr>) (installed lockFile))
                  in writeLockFile home cwd (lockFile\<lparr>installed := installed'\<rparr>)
                       scope projectRoot store))"

text \<open>A mutation of the lock store, and a sequence of them run in order; a mutation
  that throws leaves the store as it was and the next one runs.\<close>

datatype lock_op =
  Update InstalledItem InstallScope "string option"
| Remove ContentType string string InstallScope "string option"

fun apply_lock_op :: "string \<Rightarrow> string \<Rightarrow> lock_op \<Rightarrow> lock_store \<Rightarrow> lock_store" where
  "apply_lock_op home cwd (Update item scope root) store =
     snd (updateLockFile home cwd item scope root store)"
| "apply_lock_op home cwd (Remove t i a scope root) store =
     snd (removeFromLockFile home cwd t i a scope root store)"

fun run_lock_ops :: "string \<Rightarrow> string \<Rightarrow> lock_op list \<Rightarrow> lock_store \<Rightarrow> lock_store" where
  "run_lock_ops home cwd [] store = store"
| "run_lock_ops home cwd (op # ops) store =
     run_lock_ops home cwd ops (apply_lock_op home cwd op store)"

text \<open>No entry of any stored lock file has an empty \<open>assistants\<close> list.\<close>

definition no_empty_entry :: "lock_store \<Rightarrow> bool" where
  "no_empty_entry store =
     (\<forall>p lf. lock_files store p = Parses (Doc lf) \<longrightarrow>
        (\<forall>e \<in> snd ` set (installed lf). assistants e \<noteq> []))"

definition empty_store :: "string set \<Rightarrow> lock_store" where
  "empty_store ro = \<lparr>lock_files = (\<lambda>p. Missing), unwritable = ro\<rparr>"

section \<open>Catalog items and the template files (catalog.ts)\<close>

record CatalogItem =
  id_C :: string
  name_C :: string
  description_C :: string
  type_C :: ContentType
  category_C :: "string option"
  tags_C :: "string list option"
  path_C :: string
  content_C :: "string option"



text \<open>The package the templates ship in is a part of the file system that an
  installation only reads: a tree of files and directories under \<open>/\<close>, addressed by
  absolute paths.\<close>

datatype tree = TFile string | TDir "(string \<times> tree) list"

fun tlookup :: "tree \<Rightarrow> string list \<Rightarrow> errno + tree" where
  "tlookup t [] = Inr t"
| "tlookup (TFile c) (s # ss) = Inl ENOTDIR"
| "tlookup (TDir es) (s # ss) =
     (case map_of es s of None \<Rightarrow> Inl ENOENT | Some t \<Rightarrow> tlookup t ss)"

definition tree_segments :: "string \<Rightarrow> string list" where
  "tree_segments p = normalizeString False [] (split_on CHR ''/'' p)"


text \<open>A non-negative integer inside a template literal: its decimal digits.\<close>

fun show_nat :: "nat \<Rightarrow> string" where
  "show_nat n =
     (if n < 10 then [''0123456789'' ! n]
      else show_nat (n div 10) @ [''0123456789'' ! (n mod 10)])"

declare show_nat.simps [simp del]

subsection \<open>Frontmatter validation\<close>




















section \<open>Installer (installer.ts)\<close>

subsection \<open>Content hash\<close>

text \<open>Text is a list of characters, one per UTF-16 code unit of the JavaScript string
  (code units up to 255). \<open>charCodeAt\<close> gives \<open>NaN\<close> (\<open>None\<close>) outside the string.\<close>

definition charCodeAt :: "string \<Rightarrow> int \<Rightarrow> nat option" where
  "charCodeAt s i = (if 0 \<le> i \<and> i < int (length s) then Some (of_char (s ! nat i)) else None)"

text \<open>A number inside a template literal.\<close>

fun number_str :: "nat option \<Rightarrow> string" where
  "number_str None = ''NaN''"
| "number_str (Some n) = show_nat n"

definition base64_digit :: "nat \<Rightarrow> char" where
  "base64_digit n =
     ''ABCDEFGHIJKLMNOPQRSTUVWXYZabcdefghijklmnopqrstuvwxyz0123456789+/'' ! n"

text \<open>\<open>Buffer.prototype.toString("base64")\<close> on a list of bytes.\<close>

fun base64 :: "nat list \<Rightarrow> string" where
  "base64 [] = []"
| "base64 [a] =
     [base64_digit (a div 4), base64_digit ((a mod 4) * 16), CHR ''='', CHR ''='']"
| "base64 [a, b] =
     [base64_digit (a div 4), base64_digit ((a mod 4) * 16 + b div 16),
      base64_digit ((b mod 16) * 4), CHR ''='']"
| "base64 (a # b # c # rest) =
     [base64_digit (a div 4), base64_digit ((a mod 4) * 16 + b div 16),
      base64_digit ((b mod 16) * 4 + c div 64), base64_digit (c mod 64)] @ base64 rest"

text \<open>\<open>getContentHash\<close>; \<open>rd\<close> is \<open>fs.promises.readFile(\<cdot>, "utf-8")\<close>.\<close>

definition getContentHash :: "(string \<Rightarrow> errno + string) \<Rightarrow> string \<Rightarrow> errno + string" where
  "getContentHash rd filePath =
     (case rd filePath of
        Inl e \<Rightarrow> Inl e
      | Inr content \<Rightarrow>
          let h = show_nat (length content) @ ''-'' @ number_str (charCodeAt content 0)
                    @ ''-'' @ number_str (charCodeAt content (int (length content) - 1))
          in Inr (take 12 (base64 (map of_char h))))"

subsection \<open>Installation\<close>

text \<open>Everything an installation reads and changes: the home directory, the
  templates root, the package tree, the disk, the lock files and the clock
  (\<open>new Date().toISOString()\<close>).\<close>

record world =
  home :: string
  templatesRoot :: string
  package :: tree
  disk :: filesystem
  locks :: lock_store
  now :: string

text \<open>\<open>copyDir\<close>. The source lies in the package, which the copy does not write to,
  so the loop over \<open>readdir(src)\<close> and its recursive calls run over the source tree;
  \<open>copyFile\<close> creates or replaces the destination file.\<close>

fun copyEntries :: "(string \<times> tree) list \<Rightarrow> filesystem \<Rightarrow> string \<Rightarrow> errno option \<times> filesystem" where
  "copyEntries [] fsys dest = (None, fsys)"
| "copyEntries ((nm, TFile c) # rest) fsys dest =
     (case writeFile fsys (path_join [dest, nm]) c of
        (Some e, fsys') \<Rightarrow> (Some e, fsys')
      | (None, fsys') \<Rightarrow> copyEntries rest fsys' dest)"
| "copyEntries ((nm, TDir sub) # rest) fsys dest =
     (case mkdir_recursive fsys (path_join [dest, nm]) of
        (Some e, fsys') \<Rightarrow> (Some e, fsys')
      | (None, fsys') \<Rightarrow>
          (case copyEntries sub fsys' (path_join [dest, nm]) of
             (Some e, fsys'') \<Rightarrow> (Some e, fsys'')
           | (None, fsys'') \<Rightarrow> copyEntries rest fsys'' dest))"

definition copyDir :: "tree \<Rightarrow> filesystem \<Rightarrow> string \<Rightarrow> string \<Rightarrow> errno option \<times> filesystem" where
  "copyDir pkg fsys src dest =
     (case mkdir_recursive fsys dest of
        (Some e, fsys') \<Rightarrow> (Some e, fsys')
      | (None, fsys') \<Rightarrow>
          (case tlookup pkg (tree_segments src) of
             Inl e \<Rightarrow> (Some e, fsys')
           | Inr (TFile c) \<Rightarrow> (Some ENOTDIR, fsys')
           | Inr (TDir es) \<Rightarrow> copyEntries es fsys' dest))"




record InstallResult =
  success :: bool
  item :: CatalogItem
  assistant :: "AssistantConfig option"
  path_R :: string
  error :: "string option"





section \<open>Bridge files (bridge.ts)\<close>

record BridgeFile =
  editorId :: string
  filePath :: string
  content_B :: string
  description_B :: string

text \<open>The loop of \<open>writeBridgeFiles\<close> over the files still to do, with the two lists
  built so far. \<open>access\<close> throwing, for whatever reason, lets the file be written; an
  error of \<open>mkdir\<close> or \<open>writeFile\<close> is not caught.\<close>

fun writeBridgeLoop ::
  "BridgeFile list \<Rightarrow> string \<Rightarrow> bool \<Rightarrow> string list \<Rightarrow> string list \<Rightarrow> filesystem
     \<Rightarrow> (errno + string list \<times> string list) \<times> filesystem" where
  "writeBridgeLoop [] projectRoot overwrite written skipped fsys = (Inr (written, skipped), fsys)"
| "writeBridgeLoop (file # files) projectRoot overwrite written skipped fsys =
     (let fullPath = path_join [projectRoot, filePath file]
      in if \<not> overwrite \<and> access fsys fullPath = None then
           writeBridgeLoop files projectRoot overwrite written (skipped @ [filePath file]) fsys
         else
           (case mkdir_recursive fsys (path_dirname fullPath) of
              (Some e, fsys') \<Rightarrow> (Inl e, fsys')
            | (None, fsys') \<Rightarrow>
                (case writeFile fsys' fullPath (content_B file) of
                   (Some e, fsys'') \<Rightarrow> (Inl e, fsys'')
                 | (None, fsys'') \<Rightarrow>
                     writeBridgeLoop files projectRoot overwrite
                       (written @ [filePath file]) skipped fsys'')))"

text \<open>\<open>writeBridgeFiles\<close>; an omitted \<open>projectRoot\<close> is \<open>process.cwd()\<close>, an omitted
  \<open>overwrite\<close> is \<open>false\<close>.\<close>

definition writeBridgeFiles ::
  "BridgeFile list \<Rightarrow> string option \<Rightarrow> bool option \<Rightarrow> filesystem
     \<Rightarrow> (errno + string list \<times> string list) \<times> filesystem" where
  "writeBridgeFiles files projectRoot overwrite fsys =
     writeBridgeLoop files
       (case projectRoot of None \<Rightarrow> workdir fsys | Some r \<Rightarrow> r)
       (case overwrite of None \<Rightarrow> False | Some b \<Rightarrow> b) [] [] fsys"

text \<open>What processing one bridge file can create: the file at its target path, and the
  directories on the way to the directory of that path.\<close>

definition target :: "string \<Rightarrow> string \<Rightarrow> BridgeFile \<Rightarrow> string list" where
  "target wd projectRoot file = segments wd (path_join [projectRoot, filePath file])"

definition touched :: "string \<Rightarrow> string \<Rightarrow> BridgeFile \<Rightarrow> string list list" where
  "touched wd projectRoot file =
     target wd projectRoot file
       # prefixes (segments wd (path_dirname (path_join [projectRoot, filePath file])))"

text \<open>No file of the list has its target among the paths that processing an earlier
  file of the list can create.\<close>

fun independent :: "string \<Rightarrow> string \<Rightarrow> BridgeFile list \<Rightarrow> bool" where
  "independent wd projectRoot [] = True"
| "independent wd projectRoot (f # rest) =
     (list_all (\<lambda>g. target wd projectRoot g \<notin> set (touched wd projectRoot f)) rest
      \<and> independent wd projectRoot rest)"

section \<open>Example values\<close>

text \<open>The lock entry of the skill \<open>foo\<close> for a list of assistants, and the stores reached
  by installing it for \<open>claude\<close> and then for \<open>cursor\<close> in the project \<open>/repo\<close>.\<close>

definition foo_item :: "string list \<Rightarrow> InstalledItem" where
  "foo_item as =
     \<lparr>type_I = Skills, id_I = ''foo'', source = ''builtin'', hash = ''MC1OYU4tTmFO'',
      installedAt = ''2026-01-01T00:00:00.000Z'', assistants = as,
      scope_I = Project, method_I = Symlink\<rparr>"

definition store_claude :: lock_store where
  "store_claude =
     snd (updateLockFile ''/home/u'' ''/repo'' (foo_item [''claude'']) Project None (empty_store {}))"




definition foo_package :: tree where
  "foo_package =
     TDir [(''pkg'', TDir [(''templates'', TDir [(''skills'',
       TDir [(''foo'', TDir [(''SKILL.md'', TFile ''abc'')])])])])]"

definition repo_empty :: "string list set \<Rightarrow> filesystem" where
  "repo_empty d = \<lparr>entries = [[''repo''] \<mapsto> Dir], denied = d, workdir = ''/repo''\<rparr>"

definition repo_installed :: "string list set \<Rightarrow> filesystem" where
  "repo_installed d =
     \<lparr>entries = [[''repo''] \<mapsto> Dir, [''repo'', ''.ai''] \<mapsto> Dir,
                 [''repo'', ''.ai'', ''skills''] \<mapsto> Dir,
                 [''repo'', ''.ai'', ''skills'', ''foo''] \<mapsto> Dir,
                 [''repo'', ''.ai'', ''skills'', ''foo'', ''SKILL.md''] \<mapsto> File ''abc''],
      denied = d, workdir = ''/repo''\<rparr>"


text \<open>Bridge files, and the project directory with a \<open>CLAUDE.md\<close> of the user's own and
  with a regular file where the \<open>.github\<close> directory would be.\<close>

definition bridge_file :: "string \<Rightarrow> string \<Rightarrow> string \<Rightarrow> BridgeFile" where
  "bridge_file editor file text =
     \<lparr>editorId = editor, filePath = file, content_B = text,
      description_B = ''Context file pointing to .ai/''\<rparr>"

definition repo_custom :: filesystem where
  "repo_custom =
     \<lparr>entries = [[''repo''] \<mapsto> Dir, [''repo'', ''CLAUDE.md''] \<mapsto> File ''my own notes''],
      denied = {}, workdir = ''/repo''\<rparr>"

definition repo_github_file :: filesystem where
  "repo_github_file =
     \<lparr>entries = [[''repo''] \<mapsto> Dir, [''repo'', ''.github''] \<mapsto> File ''x''],
      denied = {}, workdir = ''/repo''\<rparr>"



section \<open>Properties\<close>

lemmas path_eval = path_join_def path_normalize_def CANONICAL_DIR_def

subsection \<open>Canonical path\<close>

text \<open>C1. The claim: \<open>getCanonicalPath(t, i, s, r)\<close> is \<open><base>/.ai/<t>/<i>\<close> with
  \<open><base>\<close> the home directory for the global scope and the supplied root \<open>r\<close> for the
  project scope. The code joins a supplied root in front of the home directory as well:
  for the global scope with root \<open>/repo\<close> and home \<open>/home/u\<close> it returns
  \<open>/repo/home/u/.ai/skills/foo\<close>, not \<open>/home/u/.ai/skills/foo\<close>. Without a root the
  global path is under the home directory, and the project example of the
  specification holds.\<close>

theorem getCanonicalPath_global_under_root:
  "getCanonicalPath ''/home/u'' Skills ''foo'' Global (Some ''/repo'') = ''/repo/home/u/.ai/skills/foo''
   \<and> getCanonicalPath ''/home/u'' Skills ''foo'' Global None = ''/home/u/.ai/skills/foo''
   \<and> getCanonicalPath ''/home/u'' Skills ''foo'' Project (Some ''/repo'') = ''/repo/.ai/skills/foo''"
  by (simp add: getCanonicalPath_def path_eval)

subsection \<open>Content path\<close>

text \<open>C9, as stated, fails when the project root is omitted: the claim has the project
  path joined under the current working directory, the code returns the table entry
  as it is, a relative path. Here the working directory would be \<open>/work\<close>.\<close>

theorem getContentPath_omitted_root_counterexample:
  "getContentPath (claude ''/home/u/.claude'') Skills Project None
     \<noteq> Some (path_join [''/work'', ''.claude/skills''])"
  by (simp add: getContentPath_def claude_def path_eval)

text \<open>C9, amended. For the global scope \<open>getContentPath\<close> returns
  \<open>assistant.globalPaths[type]\<close> as it is, or \<open>undefined\<close> when there is none. For the
  project scope it returns \<open>undefined\<close> when \<open>assistant.paths[type]\<close> is missing or
  empty, that entry as it is (a relative path) when the project root is omitted or
  empty, and otherwise the entry joined under the project root with \<open>path.join\<close>.\<close>

theorem getContentPath_cases:
  "getContentPath a t Global r = globalPaths a t
   \<and> getContentPath a t Project r =
       (case paths a t of
          None \<Rightarrow> None
        | Some rel \<Rightarrow>
            if rel = [] then None
            else if r = None \<or> r = Some [] then Some rel
            else Some (path_join [the r, rel]))"
  by (auto simp: getContentPath_def split: option.splits)

theorem getContentPath_cases_witness:
  "getContentPath (claude ''/home/u/.claude'') Skills Global (Some ''/repo'')
     = Some ''/home/u/.claude/skills''
   \<and> getContentPath (claude ''/home/u/.claude'') Skills Project (Some ''/repo'')
     = Some ''/repo/.claude/skills''
   \<and> getContentPath (claude ''/home/u/.claude'') Skills Project None = Some ''.claude/skills''
   \<and> getContentPath (claude ''/home/u/.claude'') Prompts Project (Some ''/repo'') = None"
  using getContentPath_cases [of "claude ''/home/u/.claude''" Skills "Some ''/repo''"]
    getContentPath_cases [of "claude ''/home/u/.claude''" Skills None]
    getContentPath_cases [of "claude ''/home/u/.claude''" Prompts "Some ''/repo''"]
  by (simp add: claude_def path_eval)

subsection \<open>Content hash\<close>

text \<open>C10. The hash that \<open>getContentHash\<close> computes depends on the content only through
  its length and the character codes of its first and last characters: two files
  whose contents agree on the three have the same hash.\<close>

theorem getContentHash_same:
  assumes "rd1 p1 = Inr c1" and "rd2 p2 = Inr c2"
    and "length c1 = length c2"
    and "charCodeAt c1 0 = charCodeAt c2 0"
    and "charCodeAt c1 (int (length c1) - 1) = charCodeAt c2 (int (length c2) - 1)"
  shows "getContentHash rd1 p1 = getContentHash rd2 p2"
  using assms by (simp add: getContentHash_def)

theorem getContentHash_same_witness:
  "''a-b'' \<noteq> ''a+b''
   \<and> getContentHash (\<lambda>p. Inr ''a-b'') ''SKILL.md'' = getContentHash (\<lambda>p. Inr ''a+b'') ''SKILL.md''"
proof -
  have len: "length ''a-b'' = length ''a+b''" by simp
  have first: "charCodeAt ''a-b'' 0 = charCodeAt ''a+b'' 0" by (simp add: charCodeAt_def)
  have final: "charCodeAt ''a-b'' (int (length ''a-b'') - 1) = charCodeAt ''a+b'' (int (length ''a+b'') - 1)"
    by (simp add: charCodeAt_def)
  show ?thesis
    using getContentHash_same [of "\<lambda>p. Inr ''a-b''" "''SKILL.md''" "''a-b''"
        "\<lambda>p. Inr ''a+b''" "''SKILL.md''" "''a+b''", OF refl refl len first final]
    by simp
qed

subsection \<open>Lock store\<close>

lemma set_fold_insert:
  "set (fold (\<lambda>x acc. if x \<in> set acc then acc else acc @ [x]) xs ys) = set xs \<union> set ys"
  by (induction xs arbitrary: ys) auto


lemma set_set_from: "set (set_from xs) = set xs"
  by (simp add: set_from_def set_fold_insert)


lemma set_from_empty_iff: "set_from xs = [] \<longleftrightarrow> xs = []"
  using set_set_from [of xs] by (metis set_empty)

lemma values_update_subset: "snd ` set (AList.update k v al) \<subseteq> insert v (snd ` set al)"
  by (induction al) auto

lemma values_delete_subset: "snd ` set (AList.delete k al) \<subseteq> snd ` set al"
  by (induction al) auto

lemma key_not_in_delete: "k \<notin> fst ` set (AList.delete k al)"
proof -
  have "fst ` set (AList.delete k al) = set (map fst (AList.delete k al))" by simp
  also have "\<dots> = set (removeAll k (map fst al))" by (simp only: delete_keys)
  finally show ?thesis by simp
qed

lemma no_empty_entry_write:
  assumes "no_empty_entry store" and "\<forall>e \<in> snd ` set (installed lf). assistants e \<noteq> []"
  shows "no_empty_entry (snd (writeLockFile hm cwd lf scope root store))"
  using assms by (auto simp: no_empty_entry_def writeLockFile_def Let_def)

lemma no_empty_entry_read:
  assumes "no_empty_entry store" and "readLockFile hm cwd store scope root = Doc lf"
  shows "\<forall>e \<in> snd ` set (installed lf). assistants e \<noteq> []"
  using assms
  by (auto simp: no_empty_entry_def readLockFile_def emptyLockFile_def split: lock_disk.splits)

lemma no_empty_entry_update:
  assumes inv: "no_empty_entry store" and ne: "assistants it \<noteq> []"
  shows "no_empty_entry (snd (updateLockFile hm cwd it scope root store))"
proof (cases "readLockFile hm cwd store scope root")
  case (Prim v)
  then show ?thesis using inv by (simp add: updateLockFile_def)
next
  case (Doc lf)
  define key where "key = getItemKey (type_I it) (id_I it)"
  define entry where "entry =
    (case map_of (installed lf) key of
       Some existing \<Rightarrow> it\<lparr>assistants := set_from (assistants existing @ assistants it)\<rparr>
     | None \<Rightarrow> it)"
  have old: "\<forall>e \<in> snd ` set (installed lf). assistants e \<noteq> []"
    using no_empty_entry_read [OF inv Doc] .
  have new: "assistants entry \<noteq> []"
  proof (cases "map_of (installed lf) key")
    case None
    then show ?thesis using ne by (simp add: entry_def)
  next
    case (Some existing)
    have "set_from (assistants existing @ assistants it) \<noteq> []"
      using ne by (simp add: set_from_empty_iff)
    then show ?thesis using Some by (simp add: entry_def)
  qed
  have "\<forall>e \<in> snd ` set (AList.update key entry (installed lf)). assistants e \<noteq> []"
    using old new values_update_subset [of key entry "installed lf"] by blast
  then have "no_empty_entry (snd (writeLockFile hm cwd
        (lf\<lparr>installed := AList.update key entry (installed lf)\<rparr>) scope root store))"
    using no_empty_entry_write [OF inv] by simp
  then show ?thesis using Doc by (simp add: updateLockFile_def Let_def key_def entry_def)
qed

lemma no_empty_entry_remove:
  assumes inv: "no_empty_entry store"
  shows "no_empty_entry (snd (removeFromLockFile hm cwd t i a scope root store))"
proof (cases "readLockFile hm cwd store scope root")
  case (Prim v)
  then show ?thesis using inv by (simp add: removeFromLockFile_def)
next
  case (Doc lf)
  have old: "\<forall>e \<in> snd ` set (installed lf). assistants e \<noteq> []"
    using no_empty_entry_read [OF inv Doc] .
  show ?thesis
  proof (cases "map_of (installed lf) (getItemKey t i)")
    case None
    then show ?thesis using Doc inv by (simp add: removeFromLockFile_def Let_def)
  next
    case (Some e)
    define rest where "rest = filter (\<lambda>x. x \<noteq> a) (assistants e)"
    define shrunk where "shrunk = e\<lparr>assistants := rest\<rparr>"
    define inst where "inst =
      (if length rest = 0 then AList.delete (getItemKey t i) (installed lf)
       else AList.update (getItemKey t i) shrunk (installed lf))"
    have "\<forall>x \<in> snd ` set inst. assistants x \<noteq> []"
    proof (cases "rest = []")
      case True
      then have "snd ` set inst \<subseteq> snd ` set (installed lf)"
        using values_delete_subset [of "getItemKey t i" "installed lf"] by (simp add: inst_def)
      then show ?thesis using old by blast
    next
      case False
      then have "snd ` set inst \<subseteq> insert shrunk (snd ` set (installed lf))"
        using values_update_subset [of "getItemKey t i" shrunk "installed lf"]
        by (simp add: inst_def)
      moreover have "assistants shrunk \<noteq> []" using False by (simp add: shrunk_def)
      ultimately show ?thesis using old by blast
    qed
    then have "no_empty_entry (snd (writeLockFile hm cwd (lf\<lparr>installed := inst\<rparr>) scope root store))"
      using no_empty_entry_write [OF inv] by simp
    moreover have "removeFromLockFile hm cwd t i a scope root store
        = writeLockFile hm cwd (lf\<lparr>installed := inst\<rparr>) scope root store"
      unfolding inst_def shrunk_def rest_def
      using Doc Some by (simp add: removeFromLockFile_def Let_def)
    ultimately show ?thesis by simp
  qed
qed

lemma no_empty_entry_run:
  assumes "\<forall>it scope root. Update it scope root \<in> set ops \<longrightarrow> assistants it \<noteq> []"
    and "no_empty_entry store"
  shows "no_empty_entry (run_lock_ops hm cwd ops store)"
  using assms
proof (induction ops arbitrary: store)
  case Nil
  then show ?case by simp
next
  case (Cons op ops)
  have "no_empty_entry (apply_lock_op hm cwd op store)"
  proof (cases op)
    case (Update it scope root)
    then show ?thesis using Cons.prems no_empty_entry_update by simp
  next
    case (Remove t i a scope root)
    then show ?thesis using Cons.prems no_empty_entry_remove by simp
  qed
  moreover have "\<forall>it scope root. Update it scope root \<in> set ops \<longrightarrow> assistants it \<noteq> []"
    using Cons.prems(1) by simp
  ultimately have "no_empty_entry (run_lock_ops hm cwd ops (apply_lock_op hm cwd op store))"
    by (rule Cons.IH [rotated])
  then show ?case by simp
qed

lemma no_empty_entry_empty: "no_empty_entry (empty_store ro)"
  by (simp add: no_empty_entry_def empty_store_def)



lemma read_after_write:
  assumes "getLockFilePath hm cwd scope root \<notin> unwritable store"
  shows "writeLockFile hm cwd lf scope root store = (None, snd (writeLockFile hm cwd lf scope root store))
         \<and> readLockFile hm cwd (snd (writeLockFile hm cwd lf scope root store)) scope root = Doc lf"
  using assms by (simp add: writeLockFile_def readLockFile_def Let_def)


lemma repo_lock_path:
  "getLockFilePath ''/home/u'' ''/repo'' Project None = ''/repo/.ai/.skill-lock.json''"
  by (simp add: getLockFilePath_def LOCK_FILE_NAME_def path_eval)

lemma foo_key: "getItemKey Skills ''foo'' = ''skills/foo''"
  by (simp add: getItemKey_def)

lemma foo_item_sel [simp]: "type_I (foo_item as) = Skills" "id_I (foo_item as) = ''foo''"
  "assistants (foo_item as) = as"
  by (simp_all add: foo_item_def)


lemma store_claude_eq:
  "store_claude =
     \<lparr>lock_files = (\<lambda>p. Missing)(''/repo/.ai/.skill-lock.json'' :=
        Parses (Doc \<lparr>version = ''1.0.0'', lastUpdateCheck = None,
                     installed = [(''skills/foo'', foo_item [''claude''])], preferences = None\<rparr>)),
      unwritable = {}\<rparr>"
  unfolding store_claude_def
  by (simp add: updateLockFile_def readLockFile_def writeLockFile_def repo_lock_path foo_key
      empty_store_def emptyLockFile_def LOCK_FILE_VERSION_def)





text \<open>C3, as stated, fails: \<open>updateLockFile\<close> stores an item whose \<open>assistants\<close> list is
  empty as it is (\<open>installItems\<close> with no assistant builds such an item).\<close>

theorem lock_store_empty_entry_counterexample:
  "\<not> no_empty_entry
       (run_lock_ops ''/home/u'' ''/repo'' [Update (foo_item []) Project None] (empty_store {}))"
proof -
  have "lock_files
          (run_lock_ops ''/home/u'' ''/repo'' [Update (foo_item []) Project None] (empty_store {}))
          ''/repo/.ai/.skill-lock.json''
        = Parses (Doc \<lparr>version = ''1.0.0'', lastUpdateCheck = None,
                           installed = [(''skills/foo'', foo_item [])], preferences = None\<rparr>)"
    by (simp add: updateLockFile_def readLockFile_def writeLockFile_def repo_lock_path foo_key
        empty_store_def emptyLockFile_def LOCK_FILE_VERSION_def)
  then have "no_empty_entry
       (run_lock_ops ''/home/u'' ''/repo'' [Update (foo_item []) Project None] (empty_store {}))
     \<Longrightarrow> assistants (foo_item []) \<noteq> []"
    unfolding no_empty_entry_def by fastforce
  then show ?thesis by auto
qed

lemma remove_last_deletes:
  assumes rd: "readLockFile hm cwd store scope root = Doc lf"
    and wr: "getLockFilePath hm cwd scope root \<notin> unwritable store"
    and ex: "map_of (installed lf) (getItemKey t i) = Some e"
    and last: "filter (\<lambda>x. x \<noteq> a) (assistants e) = []"
  shows "\<exists>lf'. readLockFile hm cwd (snd (removeFromLockFile hm cwd t i a scope root store)) scope root
                 = Doc lf'
              \<and> getItemKey t i \<notin> fst ` set (installed lf')"
proof -
  let ?lf' = "lf\<lparr>installed := AList.delete (getItemKey t i) (installed lf)\<rparr>"
  have "removeFromLockFile hm cwd t i a scope root store = writeLockFile hm cwd ?lf' scope root store"
    using rd ex last by (simp add: removeFromLockFile_def Let_def)
  moreover have "readLockFile hm cwd (snd (writeLockFile hm cwd ?lf' scope root store)) scope root = Doc ?lf'"
    using read_after_write [OF wr, of ?lf'] by simp
  moreover have "getItemKey t i \<notin> fst ` set (installed ?lf')"
    by (simp add: key_not_in_delete)
  ultimately show ?thesis by metis
qed


text \<open>C3, amended. Starting from no lock file at all, after every sequence of
  \<open>updateLockFile\<close> and \<open>removeFromLockFile\<close> calls in which every item passed to
  \<open>updateLockFile\<close> has at least one assistant, no entry of a lock file has an empty
  \<open>assistants\<close> list; and a removal that leaves an entry without assistants deletes
  the entry, when the lock file can be written.\<close>

theorem lock_store_no_empty_entry:
  "((\<forall>it scope root. Update it scope root \<in> set ops \<longrightarrow> assistants it \<noteq> [])
      \<longrightarrow> no_empty_entry (run_lock_ops hm cwd ops (empty_store ro)))
   \<and> (\<forall>store scope root lf t i a e.
         readLockFile hm cwd store scope root = Doc lf
         \<and> getLockFilePath hm cwd scope root \<notin> unwritable store
         \<and> map_of (installed lf) (getItemKey t i) = Some e
         \<and> filter (\<lambda>x. x \<noteq> a) (assistants e) = []
         \<longrightarrow> (\<exists>lf'. readLockFile hm cwd (snd (removeFromLockFile hm cwd t i a scope root store))
                        scope root = Doc lf'
                    \<and> getItemKey t i \<notin> fst ` set (installed lf')))"
  using no_empty_entry_run [OF _ no_empty_entry_empty] remove_last_deletes by blast

theorem lock_store_no_empty_entry_witness:
  "no_empty_entry
     (run_lock_ops ''/home/u'' ''/repo''
        [Update (foo_item [''claude'']) Project None, Update (foo_item [''cursor'']) Project None,
         Remove Skills ''foo'' ''claude'' Project None]
        (empty_store {}))
   \<and> (\<exists>lf'. readLockFile ''/home/u'' ''/repo''
               (snd (removeFromLockFile ''/home/u'' ''/repo'' Skills ''foo'' ''claude'' Project None
                  store_claude)) Project None = Doc lf'
            \<and> getItemKey Skills ''foo'' \<notin> fst ` set (installed lf'))"
proof -
  have ne: "\<forall>it scope root.
      Update it scope root \<in> set [Update (foo_item [''claude'']) Project None,
        Update (foo_item [''cursor'']) Project None, Remove Skills ''foo'' ''claude'' Project None]
      \<longrightarrow> assistants it \<noteq> []"
    by (auto simp: foo_item_def)
  have rd: "readLockFile ''/home/u'' ''/repo'' store_claude Project None
     = Doc \<lparr>version = ''1.0.0'', lastUpdateCheck = None,
             installed = [(''skills/foo'', foo_item [''claude''])], preferences = None\<rparr>"
    unfolding store_claude_eq by (simp add: readLockFile_def repo_lock_path)
  have wr: "getLockFilePath ''/home/u'' ''/repo'' Project None \<notin> unwritable store_claude"
    unfolding store_claude_eq by simp
  have ex: "map_of (installed \<lparr>version = ''1.0.0'', lastUpdateCheck = None,
             installed = [(''skills/foo'', foo_item [''claude''])], preferences = None\<rparr>)
             (getItemKey Skills ''foo'') = Some (foo_item [''claude''])"
    by (simp add: foo_key)
  have gone: "filter (\<lambda>x. x \<noteq> ''claude'') (assistants (foo_item [''claude''])) = []"
    by (simp add: foo_item_def)
  note all = lock_store_no_empty_entry [of "[Update (foo_item [''claude'']) Project None,
        Update (foo_item [''cursor'']) Project None, Remove Skills ''foo'' ''claude'' Project None]"
        "''/home/u''" "''/repo''" "{}"]
  have first: "no_empty_entry
     (run_lock_ops ''/home/u'' ''/repo''
        [Update (foo_item [''claude'']) Project None, Update (foo_item [''cursor'']) Project None,
         Remove Skills ''foo'' ''claude'' Project None]
        (empty_store {}))"
    using all [THEN conjunct1] ne by (rule mp)
  have second: "\<exists>lf'. readLockFile ''/home/u'' ''/repo''
               (snd (removeFromLockFile ''/home/u'' ''/repo'' Skills ''foo'' ''claude'' Project None
                  store_claude)) Project None = Doc lf'
            \<and> getItemKey Skills ''foo'' \<notin> fst ` set (installed lf')"
    using all [THEN conjunct2, rule_format, where store = store_claude and scope = Project
        and root = None and t = Skills and i = "''foo''" and a = "''claude''"
        and e = "foo_item [''claude'']", OF conjI [OF rd conjI [OF wr conjI [OF ex gone]]]] .
  show ?thesis using first second by (rule conjI)
qed

text \<open>C4, as stated, fails: a lock file whose text is valid JSON of another shape, here
  \<open>null\<close>, is returned as parsed, not replaced by an empty lock file.\<close>

theorem readLockFile_scalar_counterexample:
  "readLockFile ''/home/u'' ''/repo'' \<lparr>lock_files = (\<lambda>p. Parses (Prim JNull)), unwritable = {}\<rparr>
      Project (Some ''/repo'')
     \<noteq> Doc \<lparr>version = ''1.0.0'', lastUpdateCheck = None, installed = [], preferences = None\<rparr>"
  by (simp add: readLockFile_def)


text \<open>C4, amended. \<open>readLockFile\<close> never throws. When the lock file is missing or its
  text is not JSON it returns a new lock file with version \<open>1.0.0\<close> and no entry;
  otherwise it returns the parsed value as it is, whatever its shape.\<close>

theorem readLockFile_cases:
  "(lock_files store (getLockFilePath hm cwd scope root) = Missing
      \<or> lock_files store (getLockFilePath hm cwd scope root) = NotJSON
    \<longrightarrow> readLockFile hm cwd store scope root
          = Doc \<lparr>version = ''1.0.0'', lastUpdateCheck = None, installed = [], preferences = None\<rparr>)
   \<and> (\<forall>v. lock_files store (getLockFilePath hm cwd scope root) = Parses v
          \<longrightarrow> readLockFile hm cwd store scope root = v)"
  by (auto simp: readLockFile_def emptyLockFile_def LOCK_FILE_VERSION_def)


theorem readLockFile_cases_witness:
  "readLockFile ''/home/u'' ''/repo'' (empty_store {}) Global None
     = Doc \<lparr>version = ''1.0.0'', lastUpdateCheck = None, installed = [], preferences = None\<rparr>
   \<and> readLockFile ''/home/u'' ''/repo'' \<lparr>lock_files = (\<lambda>p. Parses (Prim (JNum 42))), unwritable = {}\<rparr>
       Global None = Prim (JNum 42)"
  using readLockFile_cases [of "empty_store {}" "''/home/u''" "''/repo''" Global None]
    readLockFile_cases [of "\<lparr>lock_files = (\<lambda>p. Parses (Prim (JNum 42))), unwritable = {}\<rparr>"
      "''/home/u''" "''/repo''" Global None]
  by (simp add: empty_store_def)

subsection \<open>Uninstalling\<close>







subsection \<open>Frontmatter validation\<close>







subsection \<open>Writing bridge files\<close>

lemma access_None_iff:
  "access fsys p = None \<longleftrightarrow>
     (segments (workdir fsys) p = [] \<or> entries fsys (segments (workdir fsys) p) \<noteq> None)"
  by (auto simp: access_def stat_def lookup_def split: sum.splits option.splits)

lemma mkdirs_props:
  "mkdirs fsys pre ss = (r, fsys') \<Longrightarrow>
     workdir fsys' = workdir fsys \<and>
     (\<forall>p. entries fsys' p = entries fsys p
          \<or> (entries fsys p = None \<and> entries fsys' p = Some Dir \<and> prefix p (pre @ ss)))"
proof (induction ss arbitrary: fsys pre)
  case Nil
  then show ?case by simp
next
  case (Cons s ss)
  show ?case
  proof (cases "entries fsys (pre @ [s])")
    case None
    show ?thesis
    proof (cases "pre \<in> denied fsys")
      case True
      then show ?thesis using Cons.prems None by simp
    next
      case False
      define fs2 where "fs2 = fsys\<lparr>entries := (entries fsys)(pre @ [s] \<mapsto> Dir)\<rparr>"
      have run: "mkdirs fs2 (pre @ [s]) ss = (r, fsys')"
        using Cons.prems None False by (simp add: fs2_def)
      have ih: "workdir fsys' = workdir fs2 \<and>
        (\<forall>p. entries fsys' p = entries fs2 p
          \<or> (entries fs2 p = None \<and> entries fsys' p = Some Dir \<and> prefix p ((pre @ [s]) @ ss)))"
        using Cons.IH [OF run] .
      have pre: "prefix (pre @ [s]) (pre @ s # ss)" by simp
      show ?thesis
      proof (intro conjI allI)
        show "workdir fsys' = workdir fsys" using ih by (simp add: fs2_def)
      next
        fix p
        show "entries fsys' p = entries fsys p
          \<or> (entries fsys p = None \<and> entries fsys' p = Some Dir \<and> prefix p (pre @ s # ss))"
        proof (cases "p = pre @ [s]")
          case True
          then have "entries fs2 p = Some Dir" by (simp add: fs2_def)
          then have "entries fsys' p = Some Dir" using ih by (metis option.distinct(1))
          then show ?thesis using True None pre by simp
        next
          case False
          then have "entries fs2 p = entries fsys p" by (simp add: fs2_def)
          then show ?thesis using ih by (metis append.assoc append_Cons append_Nil)
        qed
      qed
    qed
  next
    case (Some n)
    show ?thesis
    proof (cases n)
      case (File c)
      then show ?thesis using Cons.prems Some by simp
    next
      case Dir
      then have run: "mkdirs fsys (pre @ [s]) ss = (r, fsys')"
        using Cons.prems Some by simp
      show ?thesis using Cons.IH [OF run] by simp
    qed
  qed
qed

lemma mkdir_recursive_props:
  "mkdir_recursive fsys d = (r, fsys') \<Longrightarrow>
     workdir fsys' = workdir fsys \<and>
     (\<forall>p. entries fsys' p = entries fsys p
          \<or> (entries fsys p = None \<and> entries fsys' p = Some Dir
              \<and> p \<in> set (prefixes (segments (workdir fsys) d))))"
  unfolding mkdir_recursive_def using mkdirs_props [of fsys "[]" "segments (workdir fsys) d" r fsys']
  by (simp add: in_set_prefixes)

lemma writeFile_props:
  "writeFile fsys p c = (r, fsys') \<Longrightarrow>
     workdir fsys' = workdir fsys \<and>
     (\<forall>q. q \<noteq> segments (workdir fsys) p \<longrightarrow> entries fsys' q = entries fsys q) \<and>
     (r = None \<longrightarrow> entries fsys' (segments (workdir fsys) p) = Some (File c)) \<and>
     (entries fsys (segments (workdir fsys) p) = Some Dir \<longrightarrow> fsys' = fsys)"
  by (auto simp: writeFile_def Let_def split: sum.splits node.splits option.splits if_splits)

text \<open>One file written: the directory made, then the file.\<close>

lemma step_props:
  assumes miss: "access fsys full \<noteq> None"
    and mk: "mkdir_recursive fsys (path_dirname full) = (r1, fs1)"
    and wr: "writeFile fs1 full c = (r2, fs2)"
  shows "workdir fs1 = workdir fsys" "workdir fs2 = workdir fsys"
    "\<forall>p. entries fs1 p = entries fsys p
        \<or> (entries fsys p = None
            \<and> p \<in> set (segments (workdir fsys) full # prefixes (segments (workdir fsys) (path_dirname full))))"
    "\<forall>p. entries fs2 p = entries fsys p
        \<or> (entries fsys p = None
            \<and> p \<in> set (segments (workdir fsys) full # prefixes (segments (workdir fsys) (path_dirname full))))"
    "r2 = None \<Longrightarrow> entries fs2 (segments (workdir fsys) full) = Some (File c)"
proof -
  note m = mkdir_recursive_props [OF mk]
  note w = writeFile_props [OF wr]
  show wd1: "workdir fs1 = workdir fsys" using m by simp
  show wd2: "workdir fs2 = workdir fsys" using m w by simp
  show f1: "\<forall>p. entries fs1 p = entries fsys p
        \<or> (entries fsys p = None
            \<and> p \<in> set (segments (workdir fsys) full # prefixes (segments (workdir fsys) (path_dirname full))))"
    using m by auto
  have none: "entries fsys (segments (workdir fsys) full) = None"
    using miss by (simp add: access_None_iff)
  show "\<forall>p. entries fs2 p = entries fsys p
        \<or> (entries fsys p = None
            \<and> p \<in> set (segments (workdir fsys) full # prefixes (segments (workdir fsys) (path_dirname full))))"
  proof
    fix p
    show "entries fs2 p = entries fsys p
        \<or> (entries fsys p = None
            \<and> p \<in> set (segments (workdir fsys) full # prefixes (segments (workdir fsys) (path_dirname full))))"
    proof (cases "p = segments (workdir fsys) full")
      case True
      then show ?thesis using none by simp
    next
      case False
      then have "entries fs2 p = entries fs1 p" using w wd1 by simp
      then show ?thesis using f1 by metis
    qed
  qed
  show "r2 = None \<Longrightarrow> entries fs2 (segments (workdir fsys) full) = Some (File c)"
    using w wd1 by simp
qed


lemma loop_unfold_skip:
  "access fsys (path_join [root, filePath f]) = None \<Longrightarrow>
     writeBridgeLoop (f # files) root False w s fsys
       = writeBridgeLoop files root False w (s @ [filePath f]) fsys"
  by (simp add: Let_def)

lemma loop_unfold_write:
  assumes "access fsys (path_join [root, filePath f]) \<noteq> None"
    and "writeBridgeLoop (f # files) root False w s fsys = (Inr res, fsys')"
  obtains fs1 fs2 where
    "mkdir_recursive fsys (path_dirname (path_join [root, filePath f])) = (None, fs1)"
    "writeFile fs1 (path_join [root, filePath f]) (content_B f) = (None, fs2)"
    "writeBridgeLoop files root False (w @ [filePath f]) s fs2 = (Inr res, fsys')"
  using assms
  by (auto simp: Let_def split: prod.splits option.splits)

lemma loop_frame:
  "writeBridgeLoop files root False w s fsys = (res, fsys') \<Longrightarrow>
     workdir fsys' = workdir fsys \<and>
     (\<forall>p. entries fsys' p = entries fsys p
          \<or> (entries fsys p = None \<and> (\<exists>f \<in> set files. p \<in> set (touched (workdir fsys) root f))))"
proof (induction files arbitrary: w s fsys)
  case Nil
  then show ?case by simp
next
  case (Cons f files)
  define full where "full = path_join [root, filePath f]"
  have tch: "set (touched (workdir fsys) root f)
      = set (segments (workdir fsys) full # prefixes (segments (workdir fsys) (path_dirname full)))"
    by (simp add: touched_def target_def full_def)
  show ?case
  proof (cases "access fsys full = None")
    case True
    then have "writeBridgeLoop files root False w (s @ [filePath f]) fsys = (res, fsys')"
      using Cons.prems by (simp add: Let_def full_def)
    from Cons.IH [OF this] show ?thesis by auto
  next
    case False
    obtain r1 fs1 where mk: "mkdir_recursive fsys (path_dirname full) = (r1, fs1)"
      by (cases "mkdir_recursive fsys (path_dirname full)")
    obtain r2 fs2 where wr: "writeFile fs1 full (content_B f) = (r2, fs2)"
      by (cases "writeFile fs1 full (content_B f)")
    note st = step_props [OF False mk wr]
    show ?thesis
    proof (cases r1)
      case (Some e)
      then have "fsys' = fs1" using Cons.prems False mk by (auto simp: Let_def full_def)
      then show ?thesis using st(1) st(3) tch by (metis list.set_intros(1))
    next
      case None
      note r1 = None
      show ?thesis
      proof (cases r2)
        case (Some e)
        then have "fsys' = fs2" using Cons.prems False mk wr r1 by (auto simp: Let_def full_def)
        then show ?thesis using st(2) st(4) tch by (metis list.set_intros(1))
      next
        case None
        then have "writeBridgeLoop files root False (w @ [filePath f]) s fs2 = (res, fsys')"
          using Cons.prems False mk wr r1 by (auto simp: Let_def full_def)
        from Cons.IH [OF this]
        have ih: "workdir fsys' = workdir fs2"
          "\<forall>p. entries fsys' p = entries fs2 p
              \<or> (entries fs2 p = None \<and> (\<exists>g \<in> set files. p \<in> set (touched (workdir fs2) root g)))"
          by simp_all
        show ?thesis
        proof (intro conjI allI)
          show "workdir fsys' = workdir fsys" using ih(1) st(2) by simp
        next
          fix p
          consider (same) "entries fs2 p = entries fsys p"
            | (made) "entries fsys p = None" "p \<in> set (touched (workdir fsys) root f)"
            using st(4) tch by metis
          then show "entries fsys' p = entries fsys p
            \<or> (entries fsys p = None \<and> (\<exists>g \<in> set (f # files). p \<in> set (touched (workdir fsys) root g)))"
          proof cases
            case same
            then show ?thesis using ih(2) st(2) by (metis list.set_intros(2))
          next
            case made
            then show ?thesis by (metis list.set_intros(1))
          qed
        qed
      qed
    qed
  qed
qed

lemma loop_lists:
  "writeBridgeLoop files root False w s fsys = (Inr (w', s'), fsys') \<Longrightarrow>
     mset w' + mset s' = mset w + mset s + mset (map filePath files)
     \<and> set w \<subseteq> set w' \<and> set s \<subseteq> set s'"
proof (induction files arbitrary: w s fsys)
  case Nil
  then show ?case by simp
next
  case (Cons f files)
  show ?case
  proof (cases "access fsys (path_join [root, filePath f]) = None")
    case True
    then have "writeBridgeLoop files root False w (s @ [filePath f]) fsys = (Inr (w', s'), fsys')"
      using Cons.prems by (simp add: Let_def)
    from Cons.IH [OF this] show ?thesis by auto
  next
    case False
    from loop_unfold_write [OF False Cons.prems] obtain fs2 where
      "writeBridgeLoop files root False (w @ [filePath f]) s fs2 = (Inr (w', s'), fsys')"
      by blast
    from Cons.IH [OF this] show ?thesis by auto
  qed
qed

lemma loop_skipped:
  "writeBridgeLoop files root False w s fsys = (Inr (w', s'), fsys') \<Longrightarrow>
     f \<in> set files \<Longrightarrow> access fsys (path_join [root, filePath f]) = None \<Longrightarrow>
     filePath f \<in> set s'"
proof (induction files arbitrary: w s fsys)
  case Nil
  then show ?case by simp
next
  case (Cons g files)
  show ?case
  proof (cases "access fsys (path_join [root, filePath g]) = None")
    case True
    then have run: "writeBridgeLoop files root False w (s @ [filePath g]) fsys = (Inr (w', s'), fsys')"
      using Cons.prems(1) by (simp add: Let_def)
    show ?thesis
    proof (cases "f = g")
      case True
      then show ?thesis using loop_lists [OF run] by auto
    next
      case False
      then have "f \<in> set files" using Cons.prems(2) by simp
      then show ?thesis using Cons.IH [OF run] Cons.prems(3) by simp
    qed
  next
    case False
    then have fg: "f \<noteq> g" using Cons.prems(3) by auto
    then have mem: "f \<in> set files" using Cons.prems(2) by simp
    from loop_unfold_write [OF False Cons.prems(1)] obtain fs1 fs2 where
      mk: "mkdir_recursive fsys (path_dirname (path_join [root, filePath g])) = (None, fs1)" and
      wr: "writeFile fs1 (path_join [root, filePath g]) (content_B g) = (None, fs2)" and
      run: "writeBridgeLoop files root False (w @ [filePath g]) s fs2 = (Inr (w', s'), fsys')"
      by blast
    note st = step_props [OF False mk wr]
    have "access fs2 (path_join [root, filePath f]) = None"
      using Cons.prems(3) st(2) st(4) unfolding access_None_iff by (metis)
    then show ?thesis using Cons.IH [OF run mem] by simp
  qed
qed

lemma loop_written:
  "writeBridgeLoop files root False w s fsys = (Inr (w', s'), fsys') \<Longrightarrow>
     independent (workdir fsys) root files \<Longrightarrow>
     f \<in> set files \<Longrightarrow> access fsys (path_join [root, filePath f]) \<noteq> None \<Longrightarrow>
     filePath f \<in> set w'
     \<and> entries fsys' (segments (workdir fsys) (path_join [root, filePath f])) = Some (File (content_B f))"
proof (induction files arbitrary: w s fsys)
  case Nil
  then show ?case by simp
next
  case (Cons g files)
  have ind: "independent (workdir fsys) root files"
    and later: "\<forall>h \<in> set files. target (workdir fsys) root h \<notin> set (touched (workdir fsys) root g)"
    using Cons.prems(2) by (simp_all add: list_all_iff)
  show ?case
  proof (cases "access fsys (path_join [root, filePath g]) = None")
    case True
    then have run: "writeBridgeLoop files root False w (s @ [filePath g]) fsys = (Inr (w', s'), fsys')"
      using Cons.prems(1) by (simp add: Let_def)
    have "f \<noteq> g" using True Cons.prems(4) by auto
    then have "f \<in> set files" using Cons.prems(3) by simp
    then show ?thesis using Cons.IH [OF run ind] Cons.prems(4) by simp
  next
    case False
    from loop_unfold_write [OF False Cons.prems(1)] obtain fs1 fs2 where
      mk: "mkdir_recursive fsys (path_dirname (path_join [root, filePath g])) = (None, fs1)" and
      wr: "writeFile fs1 (path_join [root, filePath g]) (content_B g) = (None, fs2)" and
      run: "writeBridgeLoop files root False (w @ [filePath g]) s fs2 = (Inr (w', s'), fsys')"
      by blast
    note st = step_props [OF False mk wr]
    have tch: "set (touched (workdir fsys) root g)
      = set (segments (workdir fsys) (path_join [root, filePath g])
             # prefixes (segments (workdir fsys) (path_dirname (path_join [root, filePath g]))))"
      by (simp add: touched_def target_def)
    show ?thesis
    proof (cases "f = g")
      case True
      have "filePath g \<in> set w'" using loop_lists [OF run] by auto
      moreover have "entries fs2 (segments (workdir fsys) (path_join [root, filePath g]))
          = Some (File (content_B g))"
        using st(5) by simp
      then have "entries fsys' (segments (workdir fsys) (path_join [root, filePath g]))
          = Some (File (content_B g))"
        using loop_frame [OF run] by (metis option.distinct(1))
      ultimately show ?thesis using True by simp
    next
      case False
      then have mem: "f \<in> set files" using Cons.prems(3) by simp
      have "target (workdir fsys) root f \<notin> set (touched (workdir fsys) root g)"
        using later mem by blast
      then have "entries fs2 (segments (workdir fsys) (path_join [root, filePath f]))
          = entries fsys (segments (workdir fsys) (path_join [root, filePath f]))"
        using st(4) tch unfolding target_def by metis
      then have miss: "access fs2 (path_join [root, filePath f]) \<noteq> None"
        using Cons.prems(4) st(2) unfolding access_None_iff by simp
      have ind2: "independent (workdir fs2) root files" using ind st(2) by simp
      show ?thesis using Cons.IH [OF run ind2 mem miss] st(2) by simp
    qed
  qed
qed

lemma independent_distinct: "independent wd root files \<Longrightarrow> distinct (map filePath files)"
proof (induction files)
  case Nil
  then show ?case by simp
next
  case (Cons f files)
  have "\<forall>g \<in> set files. filePath g \<noteq> filePath f"
  proof
    fix g assume g: "g \<in> set files"
    then have "target wd root g \<notin> set (touched wd root f)"
      using Cons.prems by (simp add: list_all_iff)
    then have "target wd root g \<noteq> target wd root f" by (simp add: touched_def)
    then show "filePath g \<noteq> filePath f" by (auto simp: target_def)
  qed
  then show ?case using Cons by auto
qed


lemma stat_kept:
  assumes "workdir fsys' = workdir fsys"
    and "\<forall>p. entries fsys' p = entries fsys p \<or> entries fsys p = None"
    and "access fsys p = None"
  shows "stat fsys' p = stat fsys p"
proof (cases "segments (workdir fsys) p = []")
  case True
  then show ?thesis using assms(1) by (simp add: stat_def lookup_def)
next
  case False
  then obtain n where n: "entries fsys (segments (workdir fsys) p) = Some n"
    using assms(3) by (auto simp: access_None_iff)
  then have "entries fsys' (segments (workdir fsys) p) = Some n"
    using assms(2) by (metis option.distinct(1))
  then show ?thesis using n assms(1) False by (simp add: stat_def lookup_def)
qed

lemma readFile_kept:
  assumes "workdir fsys' = workdir fsys"
    and "\<forall>p. entries fsys' p = entries fsys p \<or> entries fsys p = None"
    and "readFile fsys p = Inr c"
  shows "readFile fsys' p = Inr c"
proof -
  have "access fsys p = None"
    using assms(3) by (auto simp: readFile_def access_def split: sum.splits)
  then have "stat fsys' p = stat fsys p" using stat_kept [OF assms(1) assms(2)] by simp
  then show ?thesis using assms(3) by (simp add: readFile_def)
qed

lemma repo_paths:
  "path_join [''/repo'', ''AGENTS.md''] = ''/repo/AGENTS.md''"
  "path_join [''/repo'', ''CLAUDE.md''] = ''/repo/CLAUDE.md''"
  "path_join [''/repo'', ''.github/copilot-instructions.md''] = ''/repo/.github/copilot-instructions.md''"
  "path_dirname ''/repo/AGENTS.md'' = ''/repo''"
  "path_dirname ''/repo/CLAUDE.md'' = ''/repo''"
  "path_dirname ''/repo/.github/copilot-instructions.md'' = ''/repo/.github''"
  by (simp_all add: path_eval path_dirname_def)

lemma repo_segments:
  "segments wd ''/repo'' = [''repo'']"
  "segments wd ''/repo/AGENTS.md'' = [''repo'', ''AGENTS.md'']"
  "segments wd ''/repo/CLAUDE.md'' = [''repo'', ''CLAUDE.md'']"
  "segments wd ''/repo/.github'' = [''repo'', ''.github'']"
  "segments wd ''/repo/.github/copilot-instructions.md'' = [''repo'', ''.github'', ''copilot-instructions.md'']"
  by (simp_all add: segments_def)

lemmas disk_eval = access_def stat_def lookup_def mkdir_recursive_def writeFile_def readFile_def
  is_file_def prefixes_snoc Let_def repo_paths repo_segments

text \<open>C8, as stated, fails. Two files of one call with the same target: the second is
  skipped although its path did not exist when the call started, it is not written,
  and its path is in both lists. And a regular file where the directory of a target
  should be makes \<open>mkdir\<close> throw: the call returns no lists at all.\<close>

theorem writeBridgeFiles_counterexample:
  "access (repo_empty {}) ''/repo/AGENTS.md'' = Some ENOENT
   \<and> fst (writeBridgeFiles [bridge_file ''universal'' ''AGENTS.md'' ''first'',
                            bridge_file ''codex'' ''AGENTS.md'' ''second'']
            (Some ''/repo'') None (repo_empty {}))
       = Inr ([''AGENTS.md''], [''AGENTS.md''])
   \<and> fst (writeBridgeFiles [bridge_file ''copilot'' ''.github/copilot-instructions.md'' ''text'']
            (Some ''/repo'') None repo_github_file)
       = Inl EEXIST"
  by (simp add: writeBridgeFiles_def bridge_file_def repo_empty_def repo_github_file_def disk_eval)


text \<open>C8, amended. When \<open>writeBridgeFiles(files, projectRoot)\<close> returns, without the
  overwrite flag: every file of the input whose target path exists when the call
  starts has its path in \<open>skipped\<close> and the entry at that path is unchanged; every
  regular file on disk keeps its content; each path of the input is in exactly one
  position of \<open>written\<close> or \<open>skipped\<close> (the two lists together are a permutation of
  the input paths); and when no file's target is the target of an earlier file of the
  list or a directory on the way to it, every file whose target path does not exist
  when the call starts is written with its content, its path is in \<open>written\<close>, and no
  path is in both lists.\<close>

theorem writeBridgeFiles_no_clobber:
  assumes ret: "writeBridgeFiles files projectRoot None fsys = (Inr (written, skipped), fsys')"
    and root: "root = (case projectRoot of None \<Rightarrow> workdir fsys | Some r \<Rightarrow> r)"
  shows "(\<forall>f \<in> set files. access fsys (path_join [root, filePath f]) = None
            \<longrightarrow> filePath f \<in> set skipped
                \<and> stat fsys' (path_join [root, filePath f]) = stat fsys (path_join [root, filePath f]))
    \<and> (\<forall>p c. readFile fsys p = Inr c \<longrightarrow> readFile fsys' p = Inr c)
    \<and> (independent (workdir fsys) root files
          \<longrightarrow> (\<forall>f \<in> set files. access fsys (path_join [root, filePath f]) \<noteq> None
                  \<longrightarrow> filePath f \<in> set written
                      \<and> readFile fsys' (path_join [root, filePath f]) = Inr (content_B f))
              \<and> set written \<inter> set skipped = {})
    \<and> mset written + mset skipped = mset (map filePath files)"
proof -
  have run: "writeBridgeLoop files root False [] [] fsys = (Inr (written, skipped), fsys')"
    using ret by (simp add: writeBridgeFiles_def root)
  note fr = loop_frame [OF run]
  have wd: "workdir fsys' = workdir fsys" using fr by simp
  have kept: "\<forall>p. entries fsys' p = entries fsys p \<or> entries fsys p = None"
    using fr by auto
  have lists: "mset written + mset skipped = mset (map filePath files)"
    using loop_lists [OF run] by simp
  have a: "\<forall>f \<in> set files. access fsys (path_join [root, filePath f]) = None
            \<longrightarrow> filePath f \<in> set skipped
                \<and> stat fsys' (path_join [root, filePath f]) = stat fsys (path_join [root, filePath f])"
    using loop_skipped [OF run] stat_kept [OF wd kept] by blast
  have b: "\<forall>p c. readFile fsys p = Inr c \<longrightarrow> readFile fsys' p = Inr c"
    using readFile_kept [OF wd kept] by blast
  have c: "independent (workdir fsys) root files
          \<longrightarrow> (\<forall>f \<in> set files. access fsys (path_join [root, filePath f]) \<noteq> None
                  \<longrightarrow> filePath f \<in> set written
                      \<and> readFile fsys' (path_join [root, filePath f]) = Inr (content_B f))
              \<and> set written \<inter> set skipped = {}"
  proof
    assume ind: "independent (workdir fsys) root files"
    have "distinct (map filePath files)" using independent_distinct [OF ind] .
    then have "distinct (written @ skipped)"
      using lists by (metis mset_append mset_eq_imp_distinct_iff)
    then have disj: "set written \<inter> set skipped = {}" by simp
    have "\<forall>f \<in> set files. access fsys (path_join [root, filePath f]) \<noteq> None
                  \<longrightarrow> filePath f \<in> set written
                      \<and> readFile fsys' (path_join [root, filePath f]) = Inr (content_B f)"
    proof (intro ballI impI)
      fix f assume f: "f \<in> set files" and miss: "access fsys (path_join [root, filePath f]) \<noteq> None"
      have w: "filePath f \<in> set written"
        and e: "entries fsys' (segments (workdir fsys) (path_join [root, filePath f]))
                  = Some (File (content_B f))"
        using loop_written [OF run ind f miss] by simp_all
      have "segments (workdir fsys) (path_join [root, filePath f]) \<noteq> []"
        using miss by (simp add: access_None_iff)
      then have "readFile fsys' (path_join [root, filePath f]) = Inr (content_B f)"
        using e wd by (simp add: readFile_def stat_def lookup_def)
      then show "filePath f \<in> set written
          \<and> readFile fsys' (path_join [root, filePath f]) = Inr (content_B f)"
        using w by simp
    qed
    then show "(\<forall>f \<in> set files. access fsys (path_join [root, filePath f]) \<noteq> None
                  \<longrightarrow> filePath f \<in> set written
                      \<and> readFile fsys' (path_join [root, filePath f]) = Inr (content_B f))
              \<and> set written \<inter> set skipped = {}"
      using disj by simp
  qed
  show ?thesis using a b c lists by (intro conjI)
qed

theorem writeBridgeFiles_no_clobber_witness:
  "fst (writeBridgeFiles [bridge_file ''claude'' ''CLAUDE.md'' ''bridge text'',
                          bridge_file ''universal'' ''AGENTS.md'' ''agents text'']
          (Some ''/repo'') None repo_custom)
     = Inr ([''AGENTS.md''], [''CLAUDE.md''])
   \<and> independent ''/repo'' ''/repo'' [bridge_file ''claude'' ''CLAUDE.md'' ''bridge text'',
                          bridge_file ''universal'' ''AGENTS.md'' ''agents text'']
   \<and> readFile (snd (writeBridgeFiles [bridge_file ''claude'' ''CLAUDE.md'' ''bridge text'',
                          bridge_file ''universal'' ''AGENTS.md'' ''agents text'']
          (Some ''/repo'') None repo_custom)) ''/repo/CLAUDE.md'' = Inr ''my own notes''
   \<and> readFile (snd (writeBridgeFiles [bridge_file ''claude'' ''CLAUDE.md'' ''bridge text'',
                          bridge_file ''universal'' ''AGENTS.md'' ''agents text'']
          (Some ''/repo'') None repo_custom)) ''/repo/AGENTS.md'' = Inr ''agents text''"
proof -
  define files where "files = [bridge_file ''claude'' ''CLAUDE.md'' ''bridge text'',
                          bridge_file ''universal'' ''AGENTS.md'' ''agents text'']"
  define after where "after = snd (writeBridgeFiles files (Some ''/repo'') None repo_custom)"
  have res: "fst (writeBridgeFiles files (Some ''/repo'') None repo_custom)
      = Inr ([''AGENTS.md''], [''CLAUDE.md''])"
    by (simp add: files_def writeBridgeFiles_def bridge_file_def repo_custom_def disk_eval)
  have ret: "writeBridgeFiles files (Some ''/repo'') None repo_custom
      = (Inr ([''AGENTS.md''], [''CLAUDE.md'']), after)"
    using res unfolding after_def by (metis prod.collapse)
  have root: "''/repo'' = (case Some ''/repo'' of None \<Rightarrow> workdir repo_custom | Some r \<Rightarrow> r)"
    by simp
  have wd: "workdir repo_custom = ''/repo''" by (simp add: repo_custom_def)
  have ind: "independent ''/repo'' ''/repo'' files"
    by (simp add: files_def bridge_file_def touched_def target_def repo_paths repo_segments prefixes_snoc)
  have old: "readFile repo_custom ''/repo/CLAUDE.md'' = Inr ''my own notes''"
    by (simp add: repo_custom_def disk_eval)
  have new: "access repo_custom (path_join [''/repo'', filePath (bridge_file ''universal'' ''AGENTS.md'' ''agents text'')])
      \<noteq> None"
    by (simp add: bridge_file_def repo_custom_def disk_eval)
  have mem: "bridge_file ''universal'' ''AGENTS.md'' ''agents text'' \<in> set files"
    by (simp add: files_def)
  note all = writeBridgeFiles_no_clobber [OF ret root]
  have kept: "readFile after ''/repo/CLAUDE.md'' = Inr ''my own notes''"
    using all old by blast
  have written: "readFile after (path_join [''/repo'',
      filePath (bridge_file ''universal'' ''AGENTS.md'' ''agents text'')]) = Inr (content_B (bridge_file ''universal'' ''AGENTS.md'' ''agents text''))"
    using all ind mem new unfolding wd by blast
  then have written': "readFile after ''/repo/AGENTS.md'' = Inr ''agents text''"
    by (simp add: bridge_file_def repo_paths)
  show ?thesis
    using res ind kept written' unfolding files_def after_def by (intro conjI)
qed


subsection \<open>Installing items\<close>














lemma foo_tree_segments:
  "tree_segments ''/pkg/templates/skills/foo'' = [''pkg'', ''templates'', ''skills'', ''foo'']"
  "tree_segments ''/pkg/templates/skills/bar'' = [''pkg'', ''templates'', ''skills'', ''bar'']"
  "tree_segments ''/pkg/templates/skills/foo/SKILL.md''
     = [''pkg'', ''templates'', ''skills'', ''foo'', ''SKILL.md'']"
  "segments wd ''/repo/.ai/skills/bar'' = [''repo'', ''.ai'', ''skills'', ''bar'']"
  "segments wd ''/repo/.ai/skills/foo/SKILL.md'' = [''repo'', ''.ai'', ''skills'', ''foo'', ''SKILL.md'']"
  by (simp_all add: tree_segments_def segments_def)



lemma bar_copy:
  "fst (copyDir foo_package (repo_installed {}) ''/pkg/templates/skills/bar'' ''/repo/.ai/skills/bar'')
     = Some ENOENT"
  by (simp add: copyDir_def foo_tree_segments foo_package_def
      repo_installed_def mkdir_recursive_def split: prod.splits)










end
